theory Spec2Isabelle
  imports Main "HOL-Library.Word"
begin

section \<open>Data model of the consumer keeper's relay\<close>

text \<open>
  The consumer side of cross-chain validation: the keeper receives validator-set-change
  (VSC) packets from the provider, queues slash and VSC-matured packets for it, sends the
  queue over IBC and reacts to acknowledgements. The Go methods
  \<^verbatim>\<open>OnRecvVSCPacket\<close>, \<^verbatim>\<open>QueueSlashPacket\<close>, \<^verbatim>\<open>SendPackets\<close>,
  \<^verbatim>\<open>OnAcknowledgementPacket\<close> and \<^verbatim>\<open>IsChannelClosed\<close> are embedded below as
  functions on an explicit context: the keeper's store, the event manager and the block
  header, which the Go code reaches through \<^verbatim>\<open>ctx\<close>.
\<close>

type_synonym byte = "8 word"
type_synonym uint64 = "64 word"
type_synonym ConsAddress = "byte list"

text \<open>The staking module's infraction kinds.\<close>

datatype Infraction = INFRACTION_UNSPECIFIED | INFRACTION_DOUBLE_SIGN | INFRACTION_DOWNTIME

text \<open>\<^verbatim>\<open>abci.Validator\<close> and \<^verbatim>\<open>abci.ValidatorUpdate\<close>; a validator update is
  identified by its public key.\<close>

record Validator =
  Address :: ConsAddress
  ValidatorPower :: int

record ValidatorUpdate =
  PubKey :: string
  Power :: int

record ValidatorSetChangePacketData =
  ValidatorUpdates :: "ValidatorUpdate list"
  ValsetUpdateId :: uint64
  SlashAcks :: "string list"

record SlashPacketData =
  SlashValidator :: Validator
  SlashValsetUpdateId :: uint64
  SlashInfraction :: Infraction

datatype ConsumerPacketDataType = UnspecifiedPacket | SlashPacket | VscMaturedPacket

datatype ConsumerPacketData_Data =
    ConsumerPacketData_SlashPacketData SlashPacketData
  | ConsumerPacketData_VscMaturedPacketData uint64

record ConsumerPacketData =
  Type :: ConsumerPacketDataType
  Data :: ConsumerPacketData_Data

text \<open>An entry of the pending-packet queue: the packet with its store index.\<close>

record ConsumerPacketDataWithIdx =
  Idx :: uint64
  ConsumerPacket :: ConsumerPacketData

text \<open>
  An IBC packet. The wire encoding is outside the keeper: the payload is kept decoded, and
  \<open>None\<close> stands for bytes that \<^verbatim>\<open>MustUnmarshalJSON\<close> cannot decode.
\<close>

record Packet =
  SourcePort :: string
  SourceChannel :: string
  DestinationPort :: string
  DestinationChannel :: string
  PacketData :: "ConsumerPacketData option"

text \<open>
  An IBC acknowledgement is a result, an error text, or neither. A result holds a Go byte
  slice, where \<open>None\<close> is the nil slice.
\<close>

datatype Acknowledgement =
    Acknowledgement_Result "byte list option"
  | Acknowledgement_Error string
  | Acknowledgement_Unset

fun GetResult :: "Acknowledgement \<Rightarrow> byte list option" where
  "GetResult (Acknowledgement_Result res) = res"
| "GetResult (Acknowledgement_Error e) = None"
| "GetResult Acknowledgement_Unset = None"

fun GetError :: "Acknowledgement \<Rightarrow> string" where
  "GetError (Acknowledgement_Error e) = e"
| "GetError (Acknowledgement_Result res) = []"
| "GetError Acknowledgement_Unset = []"

text \<open>The states of an IBC channel end; the keeper reads only whether it is \<open>CLOSED\<close>.\<close>

datatype ChannelState = UNINITIALIZED | INIT | TRYOPEN | OPEN | CLOSED | FLUSHING | FLUSHCOMPLETE

record Channel =
  ChannelState :: ChannelState

text \<open>Events, with their attributes kept as values instead of strings.\<close>

datatype Event =
    EventTypeChannelEstablished string string
  | EventTypeConsumerSlashRequest ConsAddress uint64 Infraction

text \<open>
  The channel keeper is an external collaborator, mocked in the repository's tests. Here it
  is a recorder: every call the keeper makes on it is appended to \<open>IBCCalls\<close>, and what
  the call returns is a function of the calls made before it (see \<open>Deps\<close> below). A
  send is recorded with the packet it carries, before encoding, and the timeout period.
\<close>

datatype IBCCall =
    CallSendIBCPacket string string ConsumerPacketData nat
  | CallChanCloseInit string string

datatype SendError = ErrClientNotActive | ErrSendFailed string

subsection \<open>The slash record\<close>

text \<open>
  Modelled from the spec: the slash record and the keeper methods on it
  (\<^verbatim>\<open>PacketSendingPermitted\<close>, \<^verbatim>\<open>UpdateSlashRecordOnSend\<close>,
  \<^verbatim>\<open>UpdateSlashRecordOnBounce\<close>, \<^verbatim>\<open>ClearSlashRecord\<close>) are declared in files that
  are not at hand. The spec's data model gives the record a state among Idle, Sending,
  WaitingForReply and WaitingForBackoffAfterBounce, and a time \<open>backoffUntil\<close>.
\<close>

datatype SlashState = Idle | Sending | WaitingForReply | WaitingForBackoffAfterBounce

record SlashRecord =
  slashState :: SlashState
  backoffUntil :: nat

subsection \<open>The context\<close>

record Ctx =
  ProviderChannel :: "string option"
  PendingChanges :: "ValidatorSetChangePacketData option"
  HeightValsetUpdateID :: "uint64 \<rightharpoonup> uint64"
  OutstandingDowntimes :: "ConsAddress set"
  PendingPackets :: "ConsumerPacketDataWithIdx list"
  PendingPacketsIdx :: uint64
  SlashRec :: SlashRecord
  CCVTimeoutPeriod :: nat
  RetryDelayPeriod :: nat
  BlockHeight :: uint64
  BlockTime :: nat
  Events :: "Event list"
  IBCCalls :: "IBCCall list"

text \<open>
  What the keeper depends on and the files at hand do not define: packet validation, the
  bech32 decoder, the behaviour of the channel keeper, the consumer port identifier and the
  first bytes of the three acknowledgement results. They are parameters of the model.
\<close>

record Deps =
  Validate :: "ValidatorSetChangePacketData \<Rightarrow> string option"
  GetConsAddrFromBech32 :: "string \<Rightarrow> ConsAddress option"
  sendResult :: "IBCCall list \<Rightarrow> string \<Rightarrow> string \<Rightarrow> ConsumerPacketData \<Rightarrow> nat \<Rightarrow> SendError option"
  closeResult :: "IBCCall list \<Rightarrow> string \<Rightarrow> string \<Rightarrow> string option"
  GetChannel :: "IBCCall list \<Rightarrow> string \<Rightarrow> string \<Rightarrow> Channel option"
  ConsumerPortID :: string
  V1Result :: byte
  SlashPacketHandledResult :: byte
  SlashPacketBouncedResult :: byte

text \<open>Errors a method returns, and its two ways of ending: returning or panicking.\<close>

datatype Error =
    ErrValidatingVSCPacketData string
  | ErrAckResultLength nat
  | ErrUnrecognizedAckResult byte
  | ErrChanCloseInitFailed string string
  | ErrNoProposerChannelId string
  | ErrChanCloseInit string

datatype Result = Returns "Error option" Ctx | Panics

section \<open>Store accessors\<close>

text \<open>
  Modelled from the spec: the store accessors of the keeper are defined in files that are
  not at hand. The outstanding-downtime flags are a set of validator identities. The
  pending-packet queue is an ordered sequence of indexed entries, FIFO by insertion index,
  with a monotonic index counter; removing marked entries preserves the order of the
  survivors.
\<close>

definition OutstandingDowntime :: "Ctx \<Rightarrow> ConsAddress \<Rightarrow> bool" where
  "OutstandingDowntime ctx consAddr = (consAddr \<in> OutstandingDowntimes ctx)"

definition SetOutstandingDowntime :: "ConsAddress \<Rightarrow> Ctx \<Rightarrow> Ctx" where
  "SetOutstandingDowntime consAddr ctx =
     ctx\<lparr>OutstandingDowntimes := insert consAddr (OutstandingDowntimes ctx)\<rparr>"

definition DeleteOutstandingDowntime :: "ConsAddress \<Rightarrow> Ctx \<Rightarrow> Ctx" where
  "DeleteOutstandingDowntime consAddr ctx =
     ctx\<lparr>OutstandingDowntimes := OutstandingDowntimes ctx - {consAddr}\<rparr>"

definition AppendPendingPacket :: "ConsumerPacketDataType \<Rightarrow> ConsumerPacketData_Data \<Rightarrow> Ctx \<Rightarrow> Ctx" where
  "AppendPendingPacket packetType data ctx =
     ctx\<lparr>PendingPackets := PendingPackets ctx @
            [\<lparr>Idx = PendingPacketsIdx ctx, ConsumerPacket = \<lparr>Type = packetType, Data = data\<rparr>\<rparr>],
         PendingPacketsIdx := PendingPacketsIdx ctx + 1\<rparr>"

definition GetAllPendingPacketsWithIdx :: "Ctx \<Rightarrow> ConsumerPacketDataWithIdx list" where
  "GetAllPendingPacketsWithIdx ctx = PendingPackets ctx"

definition DeletePendingDataPackets :: "uint64 list \<Rightarrow> Ctx \<Rightarrow> Ctx" where
  "DeletePendingDataPackets idxs ctx =
     ctx\<lparr>PendingPackets := filter (\<lambda>p. Idx p \<notin> set idxs) (PendingPackets ctx)\<rparr>"

definition DeleteHeadOfPendingPackets :: "Ctx \<Rightarrow> Ctx" where
  "DeleteHeadOfPendingPackets ctx = ctx\<lparr>PendingPackets := tl (PendingPackets ctx)\<rparr>"

text \<open>
  Modelled from the spec: the methods on the slash record. Sending is blocked while the
  record waits for a reply, and while it waits for a backoff that has not elapsed; a
  successful send of a slash packet moves the record to WaitingForReply; a bounce moves it
  to WaitingForBackoffAfterBounce with a computed \<open>backoffUntil\<close> (the spec leaves the
  computation open: the model takes the block time plus the retry delay); clearing resets
  it to Idle.
\<close>

definition PacketSendingPermitted :: "Ctx \<Rightarrow> bool" where
  "PacketSendingPermitted ctx =
     (case slashState (SlashRec ctx) of
        Idle \<Rightarrow> True
      | Sending \<Rightarrow> True
      | WaitingForReply \<Rightarrow> False
      | WaitingForBackoffAfterBounce \<Rightarrow> backoffUntil (SlashRec ctx) < BlockTime ctx)"

definition UpdateSlashRecordOnSend :: "Ctx \<Rightarrow> Ctx" where
  "UpdateSlashRecordOnSend ctx = ctx\<lparr>SlashRec := (SlashRec ctx)\<lparr>slashState := WaitingForReply\<rparr>\<rparr>"

definition UpdateSlashRecordOnBounce :: "Ctx \<Rightarrow> Ctx" where
  "UpdateSlashRecordOnBounce ctx =
     ctx\<lparr>SlashRec := \<lparr>slashState = WaitingForBackoffAfterBounce,
                        backoffUntil = BlockTime ctx + RetryDelayPeriod ctx\<rparr>\<rparr>"

definition ClearSlashRecord :: "Ctx \<Rightarrow> Ctx" where
  "ClearSlashRecord ctx = ctx\<lparr>SlashRec := \<lparr>slashState = Idle, backoffUntil = 0\<rparr>\<rparr>"

text \<open>
  The two calls on the channel keeper. Each records the call and returns what the
  collaborator answers after the calls recorded so far.
\<close>

definition SendIBCPacket :: "Deps \<Rightarrow> string \<Rightarrow> string \<Rightarrow> ConsumerPacketData \<Rightarrow> nat \<Rightarrow> Ctx \<Rightarrow> SendError option \<times> Ctx" where
  "SendIBCPacket k channelID portID packetData timeoutPeriod ctx =
     (sendResult k (IBCCalls ctx) channelID portID packetData timeoutPeriod,
      ctx\<lparr>IBCCalls := IBCCalls ctx @ [CallSendIBCPacket channelID portID packetData timeoutPeriod]\<rparr>)"

definition ChanCloseInit :: "Deps \<Rightarrow> string \<Rightarrow> string \<Rightarrow> Ctx \<Rightarrow> string option \<times> Ctx" where
  "ChanCloseInit k portID channelID ctx =
     (closeResult k (IBCCalls ctx) portID channelID,
      ctx\<lparr>IBCCalls := IBCCalls ctx @ [CallChanCloseInit portID channelID]\<rparr>)"

section \<open>OnRecvVSCPacket\<close>

text \<open>
  Modelled from the spec: \<^verbatim>\<open>ccv.AccumulateChanges\<close> is defined in a file that is not at
  hand. The spec merges the new updates into the accumulated ones with last-write-wins per
  validator identity, a validator that is already present keeping its position and taking
  the later power, a new one going to the end.
\<close>

fun upsertChange :: "ValidatorUpdate \<Rightarrow> ValidatorUpdate list \<Rightarrow> ValidatorUpdate list" where
  "upsertChange u [] = [u]"
| "upsertChange u (v # vs) = (if PubKey v = PubKey u then u # vs else v # upsertChange u vs)"

definition AccumulateChanges :: "ValidatorUpdate list \<Rightarrow> ValidatorUpdate list \<Rightarrow> ValidatorUpdate list" where
  "AccumulateChanges currentChanges newChanges =
     foldl (\<lambda>acc u. upsertChange u acc) currentChanges newChanges"

definition NewSlashPacketData :: "Validator \<Rightarrow> uint64 \<Rightarrow> Infraction \<Rightarrow> SlashPacketData" where
  "NewSlashPacketData validator valSetUpdateId infractionType =
     \<lparr>SlashValidator = validator, SlashValsetUpdateId = valSetUpdateId,
      SlashInfraction = infractionType\<rparr>"

text \<open>The loop over the slash acknowledgements: an address that does not decode is skipped.\<close>

fun deleteSlashAcks :: "Deps \<Rightarrow> string list \<Rightarrow> Ctx \<Rightarrow> Ctx" where
  "deleteSlashAcks k [] ctx = ctx"
| "deleteSlashAcks k (ack # acks) ctx =
     (case GetConsAddrFromBech32 k ack of
        None \<Rightarrow> deleteSlashAcks k acks ctx
      | Some consAddr \<Rightarrow> deleteSlashAcks k acks (DeleteOutstandingDowntime consAddr ctx))"

text \<open>
  The part of \<^verbatim>\<open>OnRecvVSCPacket\<close> after the channel check, which cannot fail. The
  current updates are those of the pending changes in the store, and none when the store
  holds no pending changes.
\<close>

definition currentValUpdates :: "Ctx \<Rightarrow> ValidatorUpdate list" where
  "currentValUpdates ctx =
     (case PendingChanges ctx of
        Some currentChanges \<Rightarrow> ValidatorUpdates currentChanges
      | None \<Rightarrow> [])"

definition setPendingAndHeight :: "Deps \<Rightarrow> ValidatorSetChangePacketData \<Rightarrow> Ctx \<Rightarrow> Ctx" where
  "setPendingAndHeight k newChanges ctx =
     (let pendingChanges =
            AccumulateChanges (currentValUpdates ctx) (ValidatorUpdates newChanges);
          ctx1 = ctx\<lparr>PendingChanges :=
                   Some \<lparr>ValidatorUpdates = pendingChanges, ValsetUpdateId = 0, SlashAcks = []\<rparr>\<rparr>;
          blockHeight = BlockHeight ctx1 + 1;
          ctx2 = ctx1\<lparr>HeightValsetUpdateID :=
                   (HeightValsetUpdateID ctx1)(blockHeight \<mapsto> ValsetUpdateId newChanges)\<rparr>
      in deleteSlashAcks k (SlashAcks newChanges) ctx2)"

definition OnRecvVSCPacket :: "Deps \<Rightarrow> Packet \<Rightarrow> ValidatorSetChangePacketData \<Rightarrow> Ctx \<Rightarrow> Result" where
  "OnRecvVSCPacket k packet newChanges ctx =
     (case Validate k newChanges of
        Some err \<Rightarrow> Returns (Some (ErrValidatingVSCPacketData err)) ctx
      | None \<Rightarrow>
          (case ProviderChannel ctx of
             Some providerChannel \<Rightarrow>
               if providerChannel \<noteq> DestinationChannel packet then Panics
               else Returns None (setPendingAndHeight k newChanges ctx)
           | None \<Rightarrow>
               Returns None (setPendingAndHeight k newChanges
                 (ctx\<lparr>ProviderChannel := Some (DestinationChannel packet),
                      Events := Events ctx @
                        [EventTypeChannelEstablished (DestinationChannel packet)
                           (DestinationPort packet)]\<rparr>))))"

text \<open>A sequence of ingests, each on the context the one before left; it stops at the
  first call that returns an error or panics.\<close>

fun OnRecvVSCPackets :: "Deps \<Rightarrow> (Packet \<times> ValidatorSetChangePacketData) list \<Rightarrow> Ctx \<Rightarrow> Result" where
  "OnRecvVSCPackets k [] ctx = Returns None ctx"
| "OnRecvVSCPackets k (pc # pcs) ctx =
     (case OnRecvVSCPacket k (fst pc) (snd pc) ctx of
        Returns None ctx' \<Rightarrow> OnRecvVSCPackets k pcs ctx'
      | Returns (Some err) ctx' \<Rightarrow> Returns (Some err) ctx'
      | Panics \<Rightarrow> Panics)"

section \<open>QueueSlashPacket\<close>

definition QueueSlashPacket :: "Validator \<Rightarrow> uint64 \<Rightarrow> Infraction \<Rightarrow> Ctx \<Rightarrow> Ctx" where
  "QueueSlashPacket validator valsetUpdateID infraction ctx =
     (let consAddr = Address validator;
          downtime = (infraction = INFRACTION_DOWNTIME)
      in if downtime \<and> OutstandingDowntime ctx consAddr then ctx
         else
           (let ctx1 = (if downtime then SetOutstandingDowntime consAddr ctx else ctx);
                slashPacket = NewSlashPacketData validator valsetUpdateID infraction;
                ctx2 = AppendPendingPacket SlashPacket
                         (ConsumerPacketData_SlashPacketData slashPacket) ctx1
            in ctx2\<lparr>Events := Events ctx2 @
                 [EventTypeConsumerSlashRequest (Address validator) valsetUpdateID infraction]\<rparr>))"

section \<open>SendPackets\<close>

text \<open>
  The loop of \<^verbatim>\<open>SendPackets\<close> over the pending packets, with the indexes marked for
  deletion so far. Each \<^verbatim>\<open>break\<close> of the Go loop ends the recursion.
\<close>

fun sendLoop :: "Deps \<Rightarrow> string \<Rightarrow> ConsumerPacketDataWithIdx list \<Rightarrow> uint64 list \<Rightarrow> Ctx \<Rightarrow> uint64 list \<times> Ctx" where
  "sendLoop k channelID [] idxsForDeletion ctx = (idxsForDeletion, ctx)"
| "sendLoop k channelID (p # pending) idxsForDeletion ctx =
     (if \<not> PacketSendingPermitted ctx then (idxsForDeletion, ctx)
      else
        (case SendIBCPacket k channelID (ConsumerPortID k) (ConsumerPacket p)
                (CCVTimeoutPeriod ctx) ctx of
           (Some err, ctx1) \<Rightarrow>
             if err = ErrClientNotActive then (idxsForDeletion, ctx1)
             else (idxsForDeletion, ctx1)
         | (None, ctx1) \<Rightarrow>
             if Type (ConsumerPacket p) = SlashPacket
             then (idxsForDeletion, UpdateSlashRecordOnSend ctx1)
             else sendLoop k channelID pending (idxsForDeletion @ [Idx p]) ctx1))"

definition SendPackets :: "Deps \<Rightarrow> Ctx \<Rightarrow> Ctx" where
  "SendPackets k ctx =
     (case ProviderChannel ctx of
        None \<Rightarrow> ctx
      | Some channelID \<Rightarrow>
          (case sendLoop k channelID (GetAllPendingPacketsWithIdx ctx) [] ctx of
             (idxsForDeletion, ctx1) \<Rightarrow> DeletePendingDataPackets idxsForDeletion ctx1))"

section \<open>OnAcknowledgementPacket\<close>

text \<open>The second half of the method: the handling of an error acknowledgement.\<close>

definition onAckError :: "Deps \<Rightarrow> Packet \<Rightarrow> Acknowledgement \<Rightarrow> Ctx \<Rightarrow> Result" where
  "onAckError k packet ack ctx =
     (if GetError ack \<noteq> [] then
        (case ChanCloseInit k (SourcePort packet) (SourceChannel packet) ctx of
           (Some err, ctx1) \<Rightarrow>
             Returns (Some (ErrChanCloseInitFailed (SourceChannel packet) err)) ctx1
         | (None, ctx1) \<Rightarrow>
             (case ProviderChannel ctx1 of
                None \<Rightarrow> Returns (Some (ErrNoProposerChannelId (SourceChannel packet))) ctx1
              | Some channelID \<Rightarrow>
                  if channelID \<noteq> SourceChannel packet then
                    (case ChanCloseInit k (ConsumerPortID k) channelID ctx1 of
                       (err2, ctx2) \<Rightarrow> Returns (map_option ErrChanCloseInit err2) ctx2)
                  else Returns None ctx1))
      else Returns None ctx)"

definition OnAcknowledgementPacket :: "Deps \<Rightarrow> Packet \<Rightarrow> Acknowledgement \<Rightarrow> Ctx \<Rightarrow> Result" where
  "OnAcknowledgementPacket k packet ack ctx =
     (case GetResult ack of
        Some res \<Rightarrow>
          if length res \<noteq> 1 then Returns (Some (ErrAckResultLength (length res))) ctx
          else
            (case PacketData packet of
               None \<Rightarrow> Panics
             | Some consumerPacket \<Rightarrow>
                 if Type consumerPacket = VscMaturedPacket then Returns None ctx
                 else if res ! 0 = V1Result k then
                   onAckError k packet ack (DeleteHeadOfPendingPackets (ClearSlashRecord ctx))
                 else if res ! 0 = SlashPacketHandledResult k then
                   onAckError k packet ack (DeleteHeadOfPendingPackets (ClearSlashRecord ctx))
                 else if res ! 0 = SlashPacketBouncedResult k then
                   onAckError k packet ack (UpdateSlashRecordOnBounce ctx)
                 else Returns (Some (ErrUnrecognizedAckResult (res ! 0))) ctx)
      | None \<Rightarrow> onAckError k packet ack ctx)"

section \<open>IsChannelClosed\<close>

definition IsChannelClosed :: "Deps \<Rightarrow> Ctx \<Rightarrow> string \<Rightarrow> bool" where
  "IsChannelClosed k ctx channelID =
     (case GetChannel k (IBCCalls ctx) (ConsumerPortID k) channelID of
        None \<Rightarrow> True
      | Some channel \<Rightarrow> if ChannelState channel = CLOSED then True else False)"

section \<open>Notions the properties are stated with\<close>

text \<open>
  The order of first appearance of the elements of a list: each element once, at the place
  of its first occurrence.
\<close>

primrec firstAppearance :: "'a list \<Rightarrow> 'a list" where
  "firstAppearance [] = []"
| "firstAppearance (x # xs) = x # filter (\<lambda>y. y \<noteq> x) (firstAppearance xs)"

text \<open>All the validator updates of a sequence of ingested batches, in the order received,
  and the power a validator identity has in the last of them that names it.\<close>

definition allUpdates :: "(Packet \<times> ValidatorSetChangePacketData) list \<Rightarrow> ValidatorUpdate list" where
  "allUpdates pcs = concat (map (\<lambda>pc. ValidatorUpdates (snd pc)) pcs)"

definition latestPower :: "ValidatorUpdate list \<Rightarrow> string \<Rightarrow> int option" where
  "latestPower us = map_of (rev (map (\<lambda>u. (PubKey u, Power u)) us))"

text \<open>
  The call that \<open>SendPackets\<close> makes on the channel keeper for a queue entry, and the
  condition that the channel keeper accepts each entry of a list in turn, starting after
  the calls \<open>calls\<close>.
\<close>

definition sendCall :: "Deps \<Rightarrow> string \<Rightarrow> nat \<Rightarrow> ConsumerPacketDataWithIdx \<Rightarrow> IBCCall" where
  "sendCall k channelID timeoutPeriod p =
     CallSendIBCPacket channelID (ConsumerPortID k) (ConsumerPacket p) timeoutPeriod"

fun sendsSucceed :: "Deps \<Rightarrow> string \<Rightarrow> nat \<Rightarrow> IBCCall list \<Rightarrow> ConsumerPacketDataWithIdx list \<Rightarrow> bool" where
  "sendsSucceed k channelID timeoutPeriod calls [] = True"
| "sendsSucceed k channelID timeoutPeriod calls (p # ps) =
     (sendResult k calls channelID (ConsumerPortID k) (ConsumerPacket p) timeoutPeriod = None \<and>
      sendsSucceed k channelID timeoutPeriod (calls @ [sendCall k channelID timeoutPeriod p]) ps)"

section \<open>Fixtures\<close>

text \<open>
  Modelled from the spec: \<^verbatim>\<open>ValidatorSetChangePacketData.Validate\<close> is defined in a
  file that is not at hand. The spec names as malformed a batch with an empty or a
  duplicate validator identity. The theorems below hold for every validation function; this
  one instantiates them.
\<close>

definition ValidateBatch :: "ValidatorSetChangePacketData \<Rightarrow> string option" where
  "ValidateBatch vsc =
     (if [] \<in> set (map PubKey (ValidatorUpdates vsc)) then Some ''empty validator identity''
      else if \<not> distinct (map PubKey (ValidatorUpdates vsc))
        then Some ''duplicate validator identity''
      else None)"

text \<open>
  A keeper over a channel keeper on which every send and every close succeeds and no
  channel is found, with 1, 2 and 3 as the acknowledgement results; a context with an
  empty store; and builders for packets and batches.
\<close>

definition testKeeper :: Deps where
  "testKeeper =
     \<lparr>Validate = ValidateBatch,
      GetConsAddrFromBech32 = (\<lambda>ack. if ack = [] then None else Some (map of_char ack)),
      sendResult = (\<lambda>calls channelID portID packetData timeoutPeriod. None),
      closeResult = (\<lambda>calls portID channelID. None),
      GetChannel = (\<lambda>calls portID channelID. None),
      ConsumerPortID = ''consumer'',
      V1Result = 1,
      SlashPacketHandledResult = 2,
      SlashPacketBouncedResult = 3\<rparr>"

definition emptyCtx :: Ctx where
  "emptyCtx =
     \<lparr>ProviderChannel = None, PendingChanges = None, HeightValsetUpdateID = Map.empty,
      OutstandingDowntimes = {}, PendingPackets = [], PendingPacketsIdx = 0,
      SlashRec = \<lparr>slashState = Idle, backoffUntil = 0\<rparr>,
      CCVTimeoutPeriod = 100, RetryDelayPeriod = 10, BlockHeight = 7, BlockTime = 1000,
      Events = [], IBCCalls = []\<rparr>"

definition vscPacket :: "string \<Rightarrow> Packet" where
  "vscPacket channelID =
     \<lparr>SourcePort = ''provider'', SourceChannel = ''channel-9'', DestinationPort = ''consumer'',
      DestinationChannel = channelID, PacketData = None\<rparr>"

definition batch :: "nat \<Rightarrow> (string \<times> int) list \<Rightarrow> ValidatorSetChangePacketData" where
  "batch n ups = \<lparr>ValidatorUpdates = map (\<lambda>(k, p). \<lparr>PubKey = k, Power = p\<rparr>) ups,
                  ValsetUpdateId = of_nat n, SlashAcks = []\<rparr>"

definition slashEntry :: "nat \<Rightarrow> ConsAddress \<Rightarrow> Infraction \<Rightarrow> ConsumerPacketDataWithIdx" where
  "slashEntry i addr infraction =
     \<lparr>Idx = of_nat i,
      ConsumerPacket = \<lparr>Type = SlashPacket,
        Data = ConsumerPacketData_SlashPacketData
          \<lparr>SlashValidator = \<lparr>Address = addr, ValidatorPower = 1\<rparr>, SlashValsetUpdateId = 1,
           SlashInfraction = infraction\<rparr>\<rparr>\<rparr>"

definition maturedEntry :: "nat \<Rightarrow> nat \<Rightarrow> ConsumerPacketDataWithIdx" where
  "maturedEntry i vscId =
     \<lparr>Idx = of_nat i,
      ConsumerPacket = \<lparr>Type = VscMaturedPacket,
        Data = ConsumerPacketData_VscMaturedPacketData (of_nat vscId)\<rparr>\<rparr>"

definition sentPacket :: "string \<Rightarrow> ConsumerPacketData \<Rightarrow> Packet" where
  "sentPacket channelID consumerPacket =
     \<lparr>SourcePort = ''consumer'', SourceChannel = channelID, DestinationPort = ''provider'',
      DestinationChannel = ''channel-9'', PacketData = Some consumerPacket\<rparr>"

definition V1Validator :: Validator where
  "V1Validator = \<lparr>Address = [1, 2, 3], ValidatorPower = 10\<rparr>"

definition waitingCtx :: Ctx where
  "waitingCtx =
     emptyCtx\<lparr>ProviderChannel := Some ''channel-0'',
              PendingPackets := [slashEntry 0 [1, 2, 3] INFRACTION_DOWNTIME, maturedEntry 1 1],
              PendingPacketsIdx := 2,
              SlashRec := \<lparr>slashState = WaitingForReply, backoffUntil = 0\<rparr>\<rparr>"

definition slashPacketOn :: "string \<Rightarrow> Packet" where
  "slashPacketOn channelID =
     sentPacket channelID (ConsumerPacket (slashEntry 0 [1, 2, 3] INFRACTION_DOWNTIME))"

definition queueCtx :: Ctx where
  "queueCtx =
     emptyCtx\<lparr>ProviderChannel := Some ''channel-0'',
              PendingPackets := [slashEntry 0 [1, 2, 3] INFRACTION_DOWNTIME, maturedEntry 1 1],
              PendingPacketsIdx := 2\<rparr>"

text \<open>
  A keeper whose channel keeper accepts two sends, then reports an inactive client, then
  fails every send for another reason.
\<close>

definition flakyKeeper :: Deps where
  "flakyKeeper =
     testKeeper\<lparr>sendResult := (\<lambda>calls channelID portID packetData timeoutPeriod.
        if length calls < 2 then None
        else if length calls = 2 then Some ErrClientNotActive
        else Some (ErrSendFailed ''timeout''))\<rparr>"

definition maturedCtx :: Ctx where
  "maturedCtx =
     emptyCtx\<lparr>ProviderChannel := Some ''channel-0'',
              PendingPackets := [maturedEntry 0 1, maturedEntry 1 2, maturedEntry 2 3,
                                 slashEntry 3 [1, 2, 3] INFRACTION_DOWNTIME],
              PendingPacketsIdx := 4\<rparr>"

definition mixedCtx :: Ctx where
  "mixedCtx =
     emptyCtx\<lparr>ProviderChannel := Some ''channel-0'',
              PendingPackets := [maturedEntry 0 1, slashEntry 1 [1, 2, 3] INFRACTION_DOWNTIME,
                                 maturedEntry 2 2],
              PendingPacketsIdx := 3\<rparr>"

section \<open>Properties\<close>

subsection \<open>IsChannelClosed\<close>

text \<open>
  C10. \<open>IsChannelClosed\<close> is true when the channel is not found and when it is found in
  the CLOSED state; it is false exactly when the channel is found in another state.
\<close>

theorem C10_IsChannelClosed:
  "IsChannelClosed k ctx channelID =
     (GetChannel k (IBCCalls ctx) (ConsumerPortID k) channelID = None \<or>
      (\<exists>channel. GetChannel k (IBCCalls ctx) (ConsumerPortID k) channelID = Some channel \<and>
         ChannelState channel = CLOSED)) \<and>
   (\<not> IsChannelClosed k ctx channelID) =
     (\<exists>channel. GetChannel k (IBCCalls ctx) (ConsumerPortID k) channelID = Some channel \<and>
        ChannelState channel \<noteq> CLOSED)"
  by (simp add: IsChannelClosed_def split: option.split)

lemma deleteSlashAcks_fields [simp]:
  "ProviderChannel (deleteSlashAcks k acks ctx) = ProviderChannel ctx"
  "PendingChanges (deleteSlashAcks k acks ctx) = PendingChanges ctx"
  "Events (deleteSlashAcks k acks ctx) = Events ctx"
  "HeightValsetUpdateID (deleteSlashAcks k acks ctx) = HeightValsetUpdateID ctx"
  by (induction acks arbitrary: ctx) (auto simp: DeleteOutstandingDowntime_def split: option.splits)

lemma setPendingAndHeight_fields [simp]:
  "ProviderChannel (setPendingAndHeight k newChanges ctx) = ProviderChannel ctx"
  "Events (setPendingAndHeight k newChanges ctx) = Events ctx"
  by (simp_all add: setPendingAndHeight_def Let_def)

subsection \<open>OnRecvVSCPacket: validation and channel binding\<close>

text \<open>
  C7. When validation rejects the batch, \<open>OnRecvVSCPacket\<close> returns the validation error
  and the context it returns is the one it was given: the channel binding, the pending
  changes, the height mapping and the outstanding-downtime set are all unchanged.
\<close>

theorem C7_malformed_batch_rejected:
  "Validate k newChanges = Some err \<Longrightarrow>
     OnRecvVSCPacket k packet newChanges ctx = Returns (Some (ErrValidatingVSCPacketData err)) ctx"
  by (simp add: OnRecvVSCPacket_def)

theorem C7_witness:
  "Validate testKeeper (batch 1 [(''V1'', 10), (''V1'', 20)]) = Some ''duplicate validator identity'' \<and>
   OnRecvVSCPacket testKeeper (vscPacket ''channel-0'') (batch 1 [(''V1'', 10), (''V1'', 20)]) emptyCtx =
     Returns (Some (ErrValidatingVSCPacketData ''duplicate validator identity'')) emptyCtx"
  using C7_malformed_batch_rejected [of testKeeper "batch 1 [(''V1'', 10), (''V1'', 20)]"
      "''duplicate validator identity''" "vscPacket ''channel-0''" emptyCtx]
  by (simp add: testKeeper_def ValidateBatch_def batch_def)

lemma OnRecvVSCPackets_bound:
  "ProviderChannel ctx = Some c \<Longrightarrow> OnRecvVSCPackets k pcs ctx = Returns None ctx' \<Longrightarrow>
     ProviderChannel ctx' = Some c \<and> Events ctx' = Events ctx"
proof (induction pcs arbitrary: ctx)
  case Nil
  then show ?case by simp
next
  case (Cons pc pcs)
  show ?case
  proof (cases "OnRecvVSCPacket k (fst pc) (snd pc) ctx")
    case Panics
    with Cons.prems show ?thesis by simp
  next
    case (Returns e ctx1)
    with Cons.prems have e: "e = None" and rest: "OnRecvVSCPackets k pcs ctx1 = Returns None ctx'"
      by (auto split: option.splits)
    from Returns e Cons.prems(1) have "ProviderChannel ctx1 = Some c \<and> Events ctx1 = Events ctx"
      by (auto simp: OnRecvVSCPacket_def split: option.splits if_splits)
    with Cons.IH [OF _ rest] show ?thesis by simp
  qed
qed

text \<open>
  C6, as amended. For a batch that passes validation: with no provider channel bound, the
  ingest binds the packet's destination channel and emits the channel-established event,
  and no later sequence of successful ingests emits another event or changes the binding;
  with a channel bound, a packet on another channel makes the ingest panic, and a packet on
  the bound channel is ingested with the binding and the events unchanged.
\<close>

theorem C6_channel_binding:
  assumes "Validate k newChanges = None"
  shows "(ProviderChannel ctx = None \<longrightarrow>
            (\<exists>ctx'. OnRecvVSCPacket k packet newChanges ctx = Returns None ctx' \<and>
               ProviderChannel ctx' = Some (DestinationChannel packet) \<and>
               Events ctx' = Events ctx @
                 [EventTypeChannelEstablished (DestinationChannel packet) (DestinationPort packet)] \<and>
               (\<forall>pcs ctx''. OnRecvVSCPackets k pcs ctx' = Returns None ctx'' \<longrightarrow>
                  ProviderChannel ctx'' = Some (DestinationChannel packet) \<and>
                  Events ctx'' = Events ctx'))) \<and>
         (\<forall>c. ProviderChannel ctx = Some c \<and> DestinationChannel packet \<noteq> c \<longrightarrow>
            OnRecvVSCPacket k packet newChanges ctx = Panics) \<and>
         (\<forall>c. ProviderChannel ctx = Some c \<and> DestinationChannel packet = c \<longrightarrow>
            (\<exists>ctx'. OnRecvVSCPacket k packet newChanges ctx = Returns None ctx' \<and>
               ProviderChannel ctx' = Some c \<and> Events ctx' = Events ctx))"
proof (intro conjI impI allI)
  assume unbound: "ProviderChannel ctx = None"
  let ?ctx' = "setPendingAndHeight k newChanges
                 (ctx\<lparr>ProviderChannel := Some (DestinationChannel packet),
                      Events := Events ctx @
                        [EventTypeChannelEstablished (DestinationChannel packet)
                           (DestinationPort packet)]\<rparr>)"
  have "OnRecvVSCPacket k packet newChanges ctx = Returns None ?ctx'"
    using assms unbound by (simp add: OnRecvVSCPacket_def)
  moreover have "ProviderChannel ?ctx' = Some (DestinationChannel packet)" by simp
  moreover have "Events ?ctx' = Events ctx @
      [EventTypeChannelEstablished (DestinationChannel packet) (DestinationPort packet)]" by simp
  moreover have "\<forall>pcs ctx''. OnRecvVSCPackets k pcs ?ctx' = Returns None ctx'' \<longrightarrow>
      ProviderChannel ctx'' = Some (DestinationChannel packet) \<and> Events ctx'' = Events ?ctx'"
    using OnRecvVSCPackets_bound [of ?ctx' "DestinationChannel packet" k] by simp
  ultimately show "\<exists>ctx'. OnRecvVSCPacket k packet newChanges ctx = Returns None ctx' \<and>
      ProviderChannel ctx' = Some (DestinationChannel packet) \<and>
      Events ctx' = Events ctx @
        [EventTypeChannelEstablished (DestinationChannel packet) (DestinationPort packet)] \<and>
      (\<forall>pcs ctx''. OnRecvVSCPackets k pcs ctx' = Returns None ctx'' \<longrightarrow>
         ProviderChannel ctx'' = Some (DestinationChannel packet) \<and> Events ctx'' = Events ctx')"
    by blast
next
  fix c
  assume "ProviderChannel ctx = Some c \<and> DestinationChannel packet \<noteq> c"
  then show "OnRecvVSCPacket k packet newChanges ctx = Panics"
    using assms by (auto simp: OnRecvVSCPacket_def)
next
  fix c
  assume "ProviderChannel ctx = Some c \<and> DestinationChannel packet = c"
  then show "\<exists>ctx'. OnRecvVSCPacket k packet newChanges ctx = Returns None ctx' \<and>
      ProviderChannel ctx' = Some c \<and> Events ctx' = Events ctx"
    using assms by (auto simp: OnRecvVSCPacket_def)
qed

theorem C6_witness:
  "Validate testKeeper (batch 1 [(''V1'', 10), (''V2'', 20)]) = None \<and>
   ProviderChannel emptyCtx = None \<and>
   (\<exists>ctx'. OnRecvVSCPacket testKeeper (vscPacket ''channel-0'')
              (batch 1 [(''V1'', 10), (''V2'', 20)]) emptyCtx = Returns None ctx' \<and>
      ProviderChannel ctx' = Some ''channel-0'' \<and>
      Events ctx' = [EventTypeChannelEstablished ''channel-0'' ''consumer'']) \<and>
   OnRecvVSCPacket testKeeper (vscPacket ''channel-1'') (batch 1 [(''V1'', 10), (''V2'', 20)])
     (emptyCtx\<lparr>ProviderChannel := Some ''channel-0''\<rparr>) = Panics"
proof -
  have v: "Validate testKeeper (batch 1 [(''V1'', 10), (''V2'', 20)]) = None"
    by (simp add: testKeeper_def ValidateBatch_def batch_def)
  show ?thesis
    using v C6_channel_binding [OF v, of emptyCtx "vscPacket ''channel-0''"]
      C6_channel_binding [OF v, of "emptyCtx\<lparr>ProviderChannel := Some ''channel-0''\<rparr>"
        "vscPacket ''channel-1''"]
    by (auto simp: emptyCtx_def vscPacket_def)
qed

text \<open>
  The claim as written fails for a batch that validation rejects: validation comes before
  the channel check, so with \<open>channel-0\<close> bound, a batch with a duplicate identity that
  arrives on \<open>channel-1\<close> is answered with the validation error, not with a panic, and
  the context is unchanged.
\<close>

theorem C6_counterexample:
  "ProviderChannel (emptyCtx\<lparr>ProviderChannel := Some ''channel-0''\<rparr>) = Some ''channel-0'' \<and>
   DestinationChannel (vscPacket ''channel-1'') = ''channel-1'' \<and>
   OnRecvVSCPacket testKeeper (vscPacket ''channel-1'') (batch 2 [(''V1'', 10), (''V1'', 20)])
     (emptyCtx\<lparr>ProviderChannel := Some ''channel-0''\<rparr>) =
     Returns (Some (ErrValidatingVSCPacketData ''duplicate validator identity''))
       (emptyCtx\<lparr>ProviderChannel := Some ''channel-0''\<rparr>) \<and>
   OnRecvVSCPacket testKeeper (vscPacket ''channel-1'') (batch 2 [(''V1'', 10), (''V1'', 20)])
     (emptyCtx\<lparr>ProviderChannel := Some ''channel-0''\<rparr>) \<noteq> Panics"
  by (simp add: OnRecvVSCPacket_def testKeeper_def ValidateBatch_def batch_def vscPacket_def
      emptyCtx_def)

subsection \<open>QueueSlashPacket\<close>

text \<open>
  C5. A downtime infraction for a validator whose address is in the outstanding-downtime
  set leaves the context as it is. A downtime infraction for another validator adds the
  address to the set, and a second downtime call for the same address after it changes
  nothing, so the two calls queue one entry. Any other infraction leaves the set as it is.
  In every case but the first, the call appends one slash entry to the queue, under the
  next index, and emits one slash-request event.
\<close>

theorem C5_QueueSlashPacket:
  "(infraction = INFRACTION_DOWNTIME \<and> Address validator \<in> OutstandingDowntimes ctx \<longrightarrow>
      QueueSlashPacket validator valsetUpdateID infraction ctx = ctx) \<and>
   (infraction = INFRACTION_DOWNTIME \<and> Address validator \<notin> OutstandingDowntimes ctx \<longrightarrow>
      OutstandingDowntimes (QueueSlashPacket validator valsetUpdateID infraction ctx) =
        insert (Address validator) (OutstandingDowntimes ctx) \<and>
      (\<forall>validator' valsetUpdateID'. Address validator' = Address validator \<longrightarrow>
         QueueSlashPacket validator' valsetUpdateID' INFRACTION_DOWNTIME
           (QueueSlashPacket validator valsetUpdateID infraction ctx) =
         QueueSlashPacket validator valsetUpdateID infraction ctx)) \<and>
   (infraction \<noteq> INFRACTION_DOWNTIME \<longrightarrow>
      OutstandingDowntimes (QueueSlashPacket validator valsetUpdateID infraction ctx) =
        OutstandingDowntimes ctx) \<and>
   (infraction \<noteq> INFRACTION_DOWNTIME \<or> Address validator \<notin> OutstandingDowntimes ctx \<longrightarrow>
      PendingPackets (QueueSlashPacket validator valsetUpdateID infraction ctx) =
        PendingPackets ctx @
          [\<lparr>Idx = PendingPacketsIdx ctx,
            ConsumerPacket = \<lparr>Type = SlashPacket,
              Data = ConsumerPacketData_SlashPacketData
                \<lparr>SlashValidator = validator, SlashValsetUpdateId = valsetUpdateID,
                 SlashInfraction = infraction\<rparr>\<rparr>\<rparr>] \<and>
      Events (QueueSlashPacket validator valsetUpdateID infraction ctx) =
        Events ctx @ [EventTypeConsumerSlashRequest (Address validator) valsetUpdateID infraction])"
  by (auto simp: QueueSlashPacket_def OutstandingDowntime_def SetOutstandingDowntime_def
      AppendPendingPacket_def NewSlashPacketData_def Let_def)

theorem C5_witness:
  "PendingPackets (QueueSlashPacket V1Validator 5 INFRACTION_DOWNTIME
     (QueueSlashPacket V1Validator 4 INFRACTION_DOWNTIME emptyCtx)) =
     [\<lparr>Idx = 0, ConsumerPacket = \<lparr>Type = SlashPacket,
         Data = ConsumerPacketData_SlashPacketData
           \<lparr>SlashValidator = V1Validator, SlashValsetUpdateId = 4,
            SlashInfraction = INFRACTION_DOWNTIME\<rparr>\<rparr>\<rparr>] \<and>
   OutstandingDowntimes (QueueSlashPacket V1Validator 4 INFRACTION_DOWNTIME emptyCtx) = {[1, 2, 3]} \<and>
   Events (QueueSlashPacket V1Validator 4 INFRACTION_DOWNTIME emptyCtx) =
     [EventTypeConsumerSlashRequest [1, 2, 3] 4 INFRACTION_DOWNTIME] \<and>
   length (PendingPackets (QueueSlashPacket V1Validator 5 INFRACTION_DOUBLE_SIGN
     (QueueSlashPacket V1Validator 4 INFRACTION_DOUBLE_SIGN emptyCtx))) = 2"
  using C5_QueueSlashPacket [of INFRACTION_DOWNTIME V1Validator emptyCtx 4]
    C5_QueueSlashPacket [of INFRACTION_DOUBLE_SIGN V1Validator emptyCtx 4]
    C5_QueueSlashPacket [of INFRACTION_DOUBLE_SIGN V1Validator
      "QueueSlashPacket V1Validator 4 INFRACTION_DOUBLE_SIGN emptyCtx" 5]
  by (simp add: emptyCtx_def V1Validator_def)

subsection \<open>OnAcknowledgementPacket\<close>

text \<open>
  C9. For a result acknowledgement of one byte on a packet that decodes to a VSC-matured
  packet, \<open>OnAcknowledgementPacket\<close> returns no error and leaves the context as it is,
  whatever the byte.
\<close>

theorem C9_matured_ack_ignores_result:
  "PacketData packet = Some consumerPacket \<Longrightarrow> Type consumerPacket = VscMaturedPacket \<Longrightarrow>
     OnAcknowledgementPacket k packet (Acknowledgement_Result (Some [b])) ctx = Returns None ctx"
  by (simp add: OnAcknowledgementPacket_def)

theorem C9_witness:
  "PacketData (sentPacket ''channel-0'' (ConsumerPacket (maturedEntry 0 1))) =
     Some (ConsumerPacket (maturedEntry 0 1)) \<and>
   Type (ConsumerPacket (maturedEntry 0 1)) = VscMaturedPacket \<and>
   OnAcknowledgementPacket testKeeper (sentPacket ''channel-0'' (ConsumerPacket (maturedEntry 0 1)))
     (Acknowledgement_Result (Some [255])) emptyCtx = Returns None emptyCtx"
  using C9_matured_ack_ignores_result [of "sentPacket ''channel-0'' (ConsumerPacket (maturedEntry 0 1))"
      "ConsumerPacket (maturedEntry 0 1)" testKeeper 255 emptyCtx]
  by (simp add: sentPacket_def maturedEntry_def)

text \<open>
  C4. For a result acknowledgement of one byte \<open>r\<close> on a packet that decodes to anything
  but a VSC-matured packet: when \<open>r\<close> is the V1 result or the slash-handled result, the
  slash record is cleared to Idle and the head of the queue is removed; when it is the
  slash-bounced result (and neither of the former, which the switch tests first), the slash
  record waits for backoff and the queue is unchanged; for any other byte the method
  returns the unrecognized-result error and the context is unchanged.
\<close>

theorem C4_slash_ack_dispatch:
  assumes "PacketData packet = Some consumerPacket" and "Type consumerPacket \<noteq> VscMaturedPacket"
  shows "(r = V1Result k \<or> r = SlashPacketHandledResult k \<longrightarrow>
            OnAcknowledgementPacket k packet (Acknowledgement_Result (Some [r])) ctx =
              Returns None (DeleteHeadOfPendingPackets (ClearSlashRecord ctx)) \<and>
            slashState (SlashRec (DeleteHeadOfPendingPackets (ClearSlashRecord ctx))) = Idle \<and>
            PendingPackets (DeleteHeadOfPendingPackets (ClearSlashRecord ctx)) =
              tl (PendingPackets ctx)) \<and>
         (r \<noteq> V1Result k \<and> r \<noteq> SlashPacketHandledResult k \<and> r = SlashPacketBouncedResult k \<longrightarrow>
            OnAcknowledgementPacket k packet (Acknowledgement_Result (Some [r])) ctx =
              Returns None (UpdateSlashRecordOnBounce ctx) \<and>
            slashState (SlashRec (UpdateSlashRecordOnBounce ctx)) = WaitingForBackoffAfterBounce \<and>
            PendingPackets (UpdateSlashRecordOnBounce ctx) = PendingPackets ctx) \<and>
         (r \<noteq> V1Result k \<and> r \<noteq> SlashPacketHandledResult k \<and> r \<noteq> SlashPacketBouncedResult k \<longrightarrow>
            OnAcknowledgementPacket k packet (Acknowledgement_Result (Some [r])) ctx =
              Returns (Some (ErrUnrecognizedAckResult r)) ctx)"
  using assms
  by (auto simp: OnAcknowledgementPacket_def onAckError_def DeleteHeadOfPendingPackets_def
      ClearSlashRecord_def UpdateSlashRecordOnBounce_def)

theorem C4_witness:
  "(\<exists>ctx'. OnAcknowledgementPacket testKeeper (slashPacketOn ''channel-0'')
              (Acknowledgement_Result (Some [2])) waitingCtx = Returns None ctx' \<and>
      slashState (SlashRec ctx') = Idle \<and> PendingPackets ctx' = [maturedEntry 1 1]) \<and>
   (\<exists>ctx'. OnAcknowledgementPacket testKeeper (slashPacketOn ''channel-0'')
              (Acknowledgement_Result (Some [3])) waitingCtx = Returns None ctx' \<and>
      slashState (SlashRec ctx') = WaitingForBackoffAfterBounce \<and>
      PendingPackets ctx' = [slashEntry 0 [1, 2, 3] INFRACTION_DOWNTIME, maturedEntry 1 1]) \<and>
   OnAcknowledgementPacket testKeeper (slashPacketOn ''channel-0'')
     (Acknowledgement_Result (Some [9])) waitingCtx =
     Returns (Some (ErrUnrecognizedAckResult 9)) waitingCtx"
proof -
  have p: "PacketData (slashPacketOn ''channel-0'') =
      Some (ConsumerPacket (slashEntry 0 [1, 2, 3] INFRACTION_DOWNTIME))"
    by (simp add: slashPacketOn_def sentPacket_def)
  have t: "Type (ConsumerPacket (slashEntry 0 [1, 2, 3] INFRACTION_DOWNTIME)) \<noteq> VscMaturedPacket"
    by (simp add: slashEntry_def)
  show ?thesis
    using C4_slash_ack_dispatch [OF p t, of 2 testKeeper waitingCtx]
      C4_slash_ack_dispatch [OF p t, of 3 testKeeper waitingCtx]
      C4_slash_ack_dispatch [OF p t, of 9 testKeeper waitingCtx]
    by (simp add: testKeeper_def waitingCtx_def emptyCtx_def)
qed

text \<open>
  C1, as amended. On an error acknowledgement with a non-empty error text the method
  initiates a close of the packet's source port and channel. If that close fails, it
  returns an error. Otherwise: with no provider channel bound it returns the
  no-channel error; with the bound channel equal to the packet's source channel it returns
  no error and closes nothing else; with a bound channel that differs from the packet's
  source channel it initiates a close of the bound channel on the consumer port as well,
  and returns what that close returns.
\<close>

theorem C1_error_ack:
  assumes "err \<noteq> []"
  shows "(\<forall>e. closeResult k (IBCCalls ctx) (SourcePort packet) (SourceChannel packet) = Some e \<longrightarrow>
            OnAcknowledgementPacket k packet (Acknowledgement_Error err) ctx =
              Returns (Some (ErrChanCloseInitFailed (SourceChannel packet) e))
                (ctx\<lparr>IBCCalls := IBCCalls ctx @
                   [CallChanCloseInit (SourcePort packet) (SourceChannel packet)]\<rparr>)) \<and>
         (closeResult k (IBCCalls ctx) (SourcePort packet) (SourceChannel packet) = None \<and>
          ProviderChannel ctx = None \<longrightarrow>
            OnAcknowledgementPacket k packet (Acknowledgement_Error err) ctx =
              Returns (Some (ErrNoProposerChannelId (SourceChannel packet)))
                (ctx\<lparr>IBCCalls := IBCCalls ctx @
                   [CallChanCloseInit (SourcePort packet) (SourceChannel packet)]\<rparr>)) \<and>
         (closeResult k (IBCCalls ctx) (SourcePort packet) (SourceChannel packet) = None \<and>
          ProviderChannel ctx = Some (SourceChannel packet) \<longrightarrow>
            OnAcknowledgementPacket k packet (Acknowledgement_Error err) ctx =
              Returns None
                (ctx\<lparr>IBCCalls := IBCCalls ctx @
                   [CallChanCloseInit (SourcePort packet) (SourceChannel packet)]\<rparr>)) \<and>
         (\<forall>channelID.
            closeResult k (IBCCalls ctx) (SourcePort packet) (SourceChannel packet) = None \<and>
            ProviderChannel ctx = Some channelID \<and> channelID \<noteq> SourceChannel packet \<longrightarrow>
            OnAcknowledgementPacket k packet (Acknowledgement_Error err) ctx =
              Returns
                (map_option ErrChanCloseInit
                   (closeResult k
                      (IBCCalls ctx @ [CallChanCloseInit (SourcePort packet) (SourceChannel packet)])
                      (ConsumerPortID k) channelID))
                (ctx\<lparr>IBCCalls := IBCCalls ctx @
                   [CallChanCloseInit (SourcePort packet) (SourceChannel packet),
                    CallChanCloseInit (ConsumerPortID k) channelID]\<rparr>))"
  using assms
  by (auto simp: OnAcknowledgementPacket_def onAckError_def ChanCloseInit_def)

theorem C1_witness:
  "OnAcknowledgementPacket testKeeper (slashPacketOn ''channel-0'') (Acknowledgement_Error ''bad'')
     emptyCtx =
     Returns (Some (ErrNoProposerChannelId ''channel-0''))
       (emptyCtx\<lparr>IBCCalls := [CallChanCloseInit ''consumer'' ''channel-0'']\<rparr>) \<and>
   OnAcknowledgementPacket testKeeper (slashPacketOn ''channel-0'') (Acknowledgement_Error ''bad'')
     waitingCtx =
     Returns None (waitingCtx\<lparr>IBCCalls := [CallChanCloseInit ''consumer'' ''channel-0'']\<rparr>)"
proof -
  have e: "''bad'' \<noteq> []" by simp
  show ?thesis
    using C1_error_ack [OF e, of testKeeper emptyCtx "slashPacketOn ''channel-0''"]
      C1_error_ack [OF e, of testKeeper waitingCtx "slashPacketOn ''channel-0''"]
    by (simp add: testKeeper_def waitingCtx_def emptyCtx_def slashPacketOn_def sentPacket_def)
qed

text \<open>
  The claim as written fails: with \<open>channel-0\<close> bound and an error acknowledgement for a
  packet sent on \<open>channel-1\<close>, the method returns no error and closes both channels.
\<close>

theorem C1_counterexample:
  "ProviderChannel waitingCtx = Some ''channel-0'' \<and>
   SourceChannel (slashPacketOn ''channel-1'') = ''channel-1'' \<and>
   OnAcknowledgementPacket testKeeper (slashPacketOn ''channel-1'') (Acknowledgement_Error ''bad'')
     waitingCtx =
     Returns None
       (waitingCtx\<lparr>IBCCalls := [CallChanCloseInit ''consumer'' ''channel-1'',
                                 CallChanCloseInit ''consumer'' ''channel-0'']\<rparr>)"
  by (simp add: OnAcknowledgementPacket_def onAckError_def ChanCloseInit_def testKeeper_def
      waitingCtx_def emptyCtx_def slashPacketOn_def sentPacket_def)

subsection \<open>OnRecvVSCPacket: accumulation\<close>

lemma set_firstAppearance [simp]: "set (firstAppearance xs) = set xs"
  by (induction xs) auto

lemma distinct_firstAppearance [simp]: "distinct (firstAppearance xs)"
  by (induction xs) auto

lemma firstAppearance_distinct: "distinct xs \<Longrightarrow> firstAppearance xs = xs"
proof (induction xs)
  case Nil
  then show ?case by simp
next
  case (Cons x xs)
  then have "filter (\<lambda>y. y \<noteq> x) xs = xs"
    by (auto intro: filter_True)
  with Cons show ?case by simp
qed

lemma firstAppearance_snoc:
  "firstAppearance (xs @ [x]) =
     (if x \<in> set xs then firstAppearance xs else firstAppearance xs @ [x])"
  by (induction xs) auto

text \<open>The same order, written with the library's \<open>remdups\<close>, which keeps last occurrences.\<close>

lemma remdups_snoc: "remdups (ys @ [x]) = filter (\<lambda>y. y \<noteq> x) (remdups ys) @ [x]"
  by (induction ys) auto

lemma firstAppearance_remdups: "firstAppearance xs = rev (remdups (rev xs))"
  by (induction xs) (simp_all add: remdups_snoc rev_filter)

lemma upsertChange_keys:
  "map PubKey (upsertChange u acc) =
     (if PubKey u \<in> set (map PubKey acc) then map PubKey acc else map PubKey acc @ [PubKey u])"
  by (induction acc) auto

lemma upsertChange_powers:
  "map_of (map (\<lambda>u. (PubKey u, Power u)) (upsertChange u acc)) =
     (map_of (map (\<lambda>u. (PubKey u, Power u)) acc))(PubKey u \<mapsto> Power u)"
  by (induction acc) (auto simp: fun_eq_iff)

lemma AccumulateChanges_snoc:
  "AccumulateChanges cur (new @ [u]) = upsertChange u (AccumulateChanges cur new)"
  by (simp add: AccumulateChanges_def)

lemma AccumulateChanges_append:
  "AccumulateChanges cur (xs @ ys) = AccumulateChanges (AccumulateChanges cur xs) ys"
  by (simp add: AccumulateChanges_def)

lemma AccumulateChanges_keys:
  "distinct (map PubKey cur) \<Longrightarrow>
     map PubKey (AccumulateChanges cur new) = firstAppearance (map PubKey cur @ map PubKey new)"
proof (induction new rule: rev_induct)
  case Nil
  then show ?case by (simp add: AccumulateChanges_def firstAppearance_distinct)
next
  case (snoc u new)
  have "firstAppearance (map PubKey cur @ map PubKey (new @ [u])) =
      firstAppearance ((map PubKey cur @ map PubKey new) @ [PubKey u])"
    by simp
  also have "\<dots> = (if PubKey u \<in> set (map PubKey cur @ map PubKey new)
      then firstAppearance (map PubKey cur @ map PubKey new)
      else firstAppearance (map PubKey cur @ map PubKey new) @ [PubKey u])"
    by (rule firstAppearance_snoc)
  finally show ?case
    using snoc
    by (simp add: AccumulateChanges_snoc upsertChange_keys del: map_append)
qed

lemma AccumulateChanges_powers:
  "map_of (map (\<lambda>u. (PubKey u, Power u)) (AccumulateChanges cur new)) =
     map_of (rev (map (\<lambda>u. (PubKey u, Power u)) new) @ map (\<lambda>u. (PubKey u, Power u)) cur)"
proof (induction new rule: rev_induct)
  case Nil
  then show ?case by (simp add: AccumulateChanges_def)
next
  case (snoc u new)
  then show ?case by (simp add: AccumulateChanges_snoc upsertChange_powers)
qed

lemma currentValUpdates_deleteSlashAcks [simp]:
  "currentValUpdates (deleteSlashAcks k acks ctx) = currentValUpdates ctx"
  by (simp add: currentValUpdates_def)

lemma OnRecvVSCPacket_accumulates:
  "OnRecvVSCPacket k packet newChanges ctx = Returns None ctx' \<Longrightarrow>
     currentValUpdates ctx' = AccumulateChanges (currentValUpdates ctx) (ValidatorUpdates newChanges)"
  by (auto simp: OnRecvVSCPacket_def setPendingAndHeight_def Let_def currentValUpdates_def
      split: option.splits if_splits)

lemma OnRecvVSCPackets_accumulates:
  "OnRecvVSCPackets k pcs ctx = Returns None ctx' \<Longrightarrow>
     currentValUpdates ctx' = AccumulateChanges (currentValUpdates ctx) (allUpdates pcs)"
proof (induction pcs arbitrary: ctx)
  case Nil
  then show ?case by (simp add: allUpdates_def AccumulateChanges_def)
next
  case (Cons pc pcs)
  show ?case
  proof (cases "OnRecvVSCPacket k (fst pc) (snd pc) ctx")
    case Panics
    with Cons.prems show ?thesis by simp
  next
    case (Returns e ctx1)
    with Cons.prems have e: "e = None" and rest: "OnRecvVSCPackets k pcs ctx1 = Returns None ctx'"
      by (auto split: option.splits)
    from Returns e have "currentValUpdates ctx1 =
        AccumulateChanges (currentValUpdates ctx) (ValidatorUpdates (snd pc))"
      by (simp add: OnRecvVSCPacket_accumulates)
    with Cons.IH [OF rest] show ?thesis
      by (simp add: allUpdates_def AccumulateChanges_append)
  qed
qed

text \<open>
  C3. After any sequence of successful ingests that starts with no pending changes, the
  accumulated updates name each validator identity of the batches once, in the order of
  first appearance over all the batches, each with the power of the last update that names
  it. Scenario A of the spec is the instance proved after the theorem.
\<close>

theorem C3_accumulated_changes:
  assumes "PendingChanges ctx = None"
    and "OnRecvVSCPackets k pcs ctx = Returns None ctx'"
  shows "map PubKey (currentValUpdates ctx') = firstAppearance (map PubKey (allUpdates pcs)) \<and>
         distinct (map PubKey (currentValUpdates ctx')) \<and>
         set (map PubKey (currentValUpdates ctx')) = set (map PubKey (allUpdates pcs)) \<and>
         (\<forall>u \<in> set (currentValUpdates ctx').
            latestPower (allUpdates pcs) (PubKey u) = Some (Power u))"
proof -
  from assms(1) have cur: "currentValUpdates ctx = []"
    by (simp add: currentValUpdates_def)
  from OnRecvVSCPackets_accumulates [OF assms(2)] cur
  have acc: "currentValUpdates ctx' = AccumulateChanges [] (allUpdates pcs)" by simp
  have keys: "map PubKey (currentValUpdates ctx') = firstAppearance (map PubKey (allUpdates pcs))"
    using AccumulateChanges_keys [of "[]" "allUpdates pcs"] acc by simp
  have dist: "distinct (map PubKey (currentValUpdates ctx'))"
    unfolding keys by simp
  have powers: "map_of (map (\<lambda>u. (PubKey u, Power u)) (currentValUpdates ctx')) =
      latestPower (allUpdates pcs)"
    using AccumulateChanges_powers [of "[]" "allUpdates pcs"] acc by (simp add: latestPower_def)
  have "latestPower (allUpdates pcs) (PubKey u) = Some (Power u)"
    if "u \<in> set (currentValUpdates ctx')" for u
  proof -
    have "distinct (map fst (map (\<lambda>u. (PubKey u, Power u)) (currentValUpdates ctx')))"
      using dist by (simp add: comp_def)
    moreover have "(PubKey u, Power u) \<in> set (map (\<lambda>u. (PubKey u, Power u)) (currentValUpdates ctx'))"
      using that by auto
    ultimately have "map_of (map (\<lambda>u. (PubKey u, Power u)) (currentValUpdates ctx')) (PubKey u) =
        Some (Power u)"
      by (rule map_of_is_SomeI)
    then show ?thesis by (simp add: powers)
  qed
  with keys dist show ?thesis
    by (metis set_firstAppearance)
qed

theorem C3_witness:
  "PendingChanges emptyCtx = None \<and>
   (\<exists>ctx'. OnRecvVSCPackets testKeeper
       [(vscPacket ''channel-0'', batch 1 [(''V1'', 10), (''V2'', 20)]),
        (vscPacket ''channel-0'', batch 2 [(''V1'', 15)])] emptyCtx = Returns None ctx' \<and>
      currentValUpdates ctx' = [\<lparr>PubKey = ''V1'', Power = 15\<rparr>, \<lparr>PubKey = ''V2'', Power = 20\<rparr>] \<and>
      map PubKey (currentValUpdates ctx') = firstAppearance [''V1'', ''V2'', ''V1''] \<and>
      latestPower (allUpdates
       [(vscPacket ''channel-0'', batch 1 [(''V1'', 10), (''V2'', 20)]),
        (vscPacket ''channel-0'', batch 2 [(''V1'', 15)])]) ''V1'' = Some 15)"
proof -
  let ?pcs = "[(vscPacket ''channel-0'', batch 1 [(''V1'', 10), (''V2'', 20)]),
               (vscPacket ''channel-0'', batch 2 [(''V1'', 15)])]"
  let ?ctx' = "setPendingAndHeight testKeeper (batch 2 [(''V1'', 15)])
     (setPendingAndHeight testKeeper (batch 1 [(''V1'', 10), (''V2'', 20)])
        (emptyCtx\<lparr>ProviderChannel := Some ''channel-0'',
           Events := [EventTypeChannelEstablished ''channel-0'' ''consumer'']\<rparr>))"
  have p: "PendingChanges emptyCtx = None" by (simp add: emptyCtx_def)
  have run: "OnRecvVSCPackets testKeeper ?pcs emptyCtx = Returns None ?ctx'"
    by (simp add: OnRecvVSCPacket_def testKeeper_def ValidateBatch_def batch_def emptyCtx_def
        vscPacket_def)
  have val: "currentValUpdates ?ctx' = [\<lparr>PubKey = ''V1'', Power = 15\<rparr>, \<lparr>PubKey = ''V2'', Power = 20\<rparr>]"
    by (simp add: setPendingAndHeight_def currentValUpdates_def AccumulateChanges_def batch_def
        emptyCtx_def Let_def)
  show ?thesis
    using p run val C3_accumulated_changes [OF p run]
    by (simp add: allUpdates_def batch_def)
qed

subsection \<open>SendPackets\<close>

lemma DeletePendingDataPackets_Nil [simp]: "DeletePendingDataPackets [] ctx = ctx"
  by (simp add: DeletePendingDataPackets_def)

lemma PacketSendingPermitted_IBCCalls [simp]:
  "PacketSendingPermitted (ctx\<lparr>IBCCalls := calls\<rparr>) = PacketSendingPermitted ctx"
  by (simp add: PacketSendingPermitted_def split: SlashState.splits)

lemma SendPackets_not_permitted:
  "\<not> PacketSendingPermitted ctx \<Longrightarrow> SendPackets k ctx = ctx"
  by (cases "PendingPackets ctx")
     (auto simp: SendPackets_def GetAllPendingPacketsWithIdx_def split: option.splits)

lemma SendPackets_unbound:
  "ProviderChannel ctx = None \<Longrightarrow> SendPackets k ctx = ctx"
  by (simp add: SendPackets_def)

text \<open>The loop passes over a prefix of entries that are no slash packets and are all accepted:
  it records their sends and marks their indexes.\<close>

lemma sendLoop_prefix:
  assumes "PacketSendingPermitted ctx"
    and "\<forall>q \<in> set pre. Type (ConsumerPacket q) \<noteq> SlashPacket"
    and "sendsSucceed k channelID (CCVTimeoutPeriod ctx) (IBCCalls ctx) pre"
  shows "sendLoop k channelID (pre @ rest) idxs ctx =
           sendLoop k channelID rest (idxs @ map Idx pre)
             (ctx\<lparr>IBCCalls := IBCCalls ctx @
                    map (sendCall k channelID (CCVTimeoutPeriod ctx)) pre\<rparr>)"
  using assms
proof (induction pre arbitrary: idxs ctx)
  case Nil
  then show ?case by simp
next
  case (Cons q pre)
  let ?ctx1 = "ctx\<lparr>IBCCalls := IBCCalls ctx @ [sendCall k channelID (CCVTimeoutPeriod ctx) q]\<rparr>"
  have perm: "PacketSendingPermitted ?ctx1"
    using Cons.prems(1) by simp
  have notslash: "\<forall>q \<in> set pre. Type (ConsumerPacket q) \<noteq> SlashPacket"
    using Cons.prems(2) by simp
  have ok: "sendsSucceed k channelID (CCVTimeoutPeriod ?ctx1) (IBCCalls ?ctx1) pre"
    using Cons.prems(3) by simp
  have step: "sendLoop k channelID ((q # pre) @ rest) idxs ctx =
      sendLoop k channelID (pre @ rest) (idxs @ [Idx q]) ?ctx1"
    using Cons.prems(1,2,3) by (simp add: SendIBCPacket_def sendCall_def)
  show ?case
    unfolding step using Cons.IH [OF perm notslash ok, of "idxs @ [Idx q]"]
    by simp
qed

lemma sendsSucceed_snoc:
  "sendsSucceed k channelID timeoutPeriod calls (pre @ [p]) =
     (sendsSucceed k channelID timeoutPeriod calls pre \<and>
      sendResult k (calls @ map (sendCall k channelID timeoutPeriod) pre) channelID
        (ConsumerPortID k) (ConsumerPacket p) timeoutPeriod = None)"
  by (induction pre arbitrary: calls) auto

lemma filter_sent_prefix:
  assumes "distinct (map Idx (pre @ rest))"
  shows "filter (\<lambda>q. Idx q \<notin> set (map Idx pre)) (pre @ rest) = rest"
proof -
  have "filter (\<lambda>q. Idx q \<notin> set (map Idx pre)) pre = []"
    by (auto simp: filter_empty_conv)
  moreover have "filter (\<lambda>q. Idx q \<notin> set (map Idx pre)) rest = rest"
    using assms by (intro filter_True) auto
  ultimately show ?thesis by simp
qed

text \<open>What \<open>SendPackets\<close> does when the loop reaches an entry \<open>p\<close> behind such a prefix
  and \<open>p\<close> is a slash packet or its send fails: the loop ends at \<open>p\<close>.\<close>

lemma SendPackets_stops_at:
  assumes "ProviderChannel ctx = Some channelID"
    and "PendingPackets ctx = pre @ p # post"
    and "distinct (map Idx (PendingPackets ctx))"
    and "PacketSendingPermitted ctx"
    and "\<forall>q \<in> set pre. Type (ConsumerPacket q) \<noteq> SlashPacket"
    and "sendsSucceed k channelID (CCVTimeoutPeriod ctx) (IBCCalls ctx) pre"
    and "Type (ConsumerPacket p) = SlashPacket \<or>
         sendResult k (IBCCalls ctx @ map (sendCall k channelID (CCVTimeoutPeriod ctx)) pre)
           channelID (ConsumerPortID k) (ConsumerPacket p) (CCVTimeoutPeriod ctx) \<noteq> None"
  shows "SendPackets k ctx =
     (let ctx1 = ctx\<lparr>PendingPackets := p # post,
                     IBCCalls := IBCCalls ctx @
                       map (sendCall k channelID (CCVTimeoutPeriod ctx)) (pre @ [p])\<rparr>
      in if sendResult k (IBCCalls ctx @ map (sendCall k channelID (CCVTimeoutPeriod ctx)) pre)
              channelID (ConsumerPortID k) (ConsumerPacket p) (CCVTimeoutPeriod ctx) = None
         then UpdateSlashRecordOnSend ctx1 else ctx1)"
proof -
  let ?calls = "IBCCalls ctx @ map (sendCall k channelID (CCVTimeoutPeriod ctx)) pre"
  let ?ctxp = "ctx\<lparr>IBCCalls := ?calls\<rparr>"
  have pre: "sendLoop k channelID (pre @ p # post) [] ctx =
      sendLoop k channelID (p # post) ([] @ map Idx pre) ?ctxp"
    by (rule sendLoop_prefix [OF assms(4,5,6)])
  have keep: "filter (\<lambda>q. Idx q \<notin> set (map Idx pre)) (pre @ p # post) = p # post"
    using assms(2,3) by (intro filter_sent_prefix) simp
  have perm: "PacketSendingPermitted ?ctxp" using assms(4) by simp
  show ?thesis
  proof (cases "sendResult k ?calls channelID (ConsumerPortID k) (ConsumerPacket p)
      (CCVTimeoutPeriod ctx)")
    case None
    with assms(7) have slash: "Type (ConsumerPacket p) = SlashPacket" by simp
    have "sendLoop k channelID (p # post) (map Idx pre) ?ctxp =
        (map Idx pre, UpdateSlashRecordOnSend
           (ctx\<lparr>IBCCalls := ?calls @ [sendCall k channelID (CCVTimeoutPeriod ctx) p]\<rparr>))"
      using perm None slash by (simp add: SendIBCPacket_def sendCall_def)
    with pre keep assms(1,2) None show ?thesis
      by (simp add: SendPackets_def GetAllPendingPacketsWithIdx_def DeletePendingDataPackets_def
          UpdateSlashRecordOnSend_def)
  next
    case (Some err)
    have "sendLoop k channelID (p # post) (map Idx pre) ?ctxp =
        (map Idx pre, ctx\<lparr>IBCCalls := ?calls @ [sendCall k channelID (CCVTimeoutPeriod ctx) p]\<rparr>)"
      using perm Some by (simp add: SendIBCPacket_def sendCall_def)
    with pre keep assms(1,2) Some show ?thesis
      by (simp add: SendPackets_def GetAllPendingPacketsWithIdx_def DeletePendingDataPackets_def)
  qed
qed

text \<open>
  C2. Let \<open>p\<close> be a slash entry. With \<open>p\<close> at the head of the queue: while the slash
  record waits for a reply, \<open>SendPackets\<close> changes nothing and calls the channel keeper
  not at all; while it waits for backoff, the queue is unchanged and the only call
  \<open>SendPackets\<close> can make is the send of \<open>p\<close>, and before the backoff time it makes
  none. And when sending is permitted and the loop reaches \<open>p\<close> (the entries before it
  are no slash packets and are accepted) and the send of \<open>p\<close> succeeds, the loop stops
  there: these sends are the only calls, \<open>p\<close> is left at the head of the queue with the
  entries behind it, the record waits for a reply, and every later \<open>SendPackets\<close>, at any
  block time and whatever the channel keeper would answer, changes nothing.
\<close>

theorem C2_head_of_line_blocking:
  assumes "Type (ConsumerPacket p) = SlashPacket"
  shows "(PendingPackets ctx = p # rest \<and> slashState (SlashRec ctx) = WaitingForReply \<longrightarrow>
            SendPackets k ctx = ctx) \<and>
         (PendingPackets ctx = p # rest \<and>
          slashState (SlashRec ctx) = WaitingForBackoffAfterBounce \<longrightarrow>
            PendingPackets (SendPackets k ctx) = PendingPackets ctx \<and>
            (BlockTime ctx < backoffUntil (SlashRec ctx) \<longrightarrow> SendPackets k ctx = ctx) \<and>
            (IBCCalls (SendPackets k ctx) = IBCCalls ctx \<or>
             (\<exists>channelID. ProviderChannel ctx = Some channelID \<and>
                IBCCalls (SendPackets k ctx) =
                  IBCCalls ctx @ [sendCall k channelID (CCVTimeoutPeriod ctx) p]))) \<and>
         (\<forall>channelID pre.
            ProviderChannel ctx = Some channelID \<and> PendingPackets ctx = pre @ p # rest \<and>
            distinct (map Idx (PendingPackets ctx)) \<and> PacketSendingPermitted ctx \<and>
            (\<forall>q \<in> set pre. Type (ConsumerPacket q) \<noteq> SlashPacket) \<and>
            sendsSucceed k channelID (CCVTimeoutPeriod ctx) (IBCCalls ctx) (pre @ [p]) \<longrightarrow>
            PendingPackets (SendPackets k ctx) = p # rest \<and>
            slashState (SlashRec (SendPackets k ctx)) = WaitingForReply \<and>
            IBCCalls (SendPackets k ctx) =
              IBCCalls ctx @ map (sendCall k channelID (CCVTimeoutPeriod ctx)) (pre @ [p]) \<and>
            (\<forall>k' t. SendPackets k' ((SendPackets k ctx)\<lparr>BlockTime := t\<rparr>) =
                      (SendPackets k ctx)\<lparr>BlockTime := t\<rparr>))"
proof (intro conjI impI allI)
  assume "PendingPackets ctx = p # rest \<and> slashState (SlashRec ctx) = WaitingForReply"
  then have "\<not> PacketSendingPermitted ctx" by (simp add: PacketSendingPermitted_def)
  then show "SendPackets k ctx = ctx" by (rule SendPackets_not_permitted)
next
  assume "PendingPackets ctx = p # rest \<and>
      slashState (SlashRec ctx) = WaitingForBackoffAfterBounce"
    and "BlockTime ctx < backoffUntil (SlashRec ctx)"
  then have "\<not> PacketSendingPermitted ctx" by (simp add: PacketSendingPermitted_def)
  then show "SendPackets k ctx = ctx" by (rule SendPackets_not_permitted)
next
  assume h: "PendingPackets ctx = p # rest \<and>
      slashState (SlashRec ctx) = WaitingForBackoffAfterBounce"
  have cases: "SendPackets k ctx = ctx \<or>
      (\<exists>channelID. ProviderChannel ctx = Some channelID \<and>
         (SendPackets k ctx =
            ctx\<lparr>IBCCalls := IBCCalls ctx @ [sendCall k channelID (CCVTimeoutPeriod ctx) p]\<rparr> \<or>
          SendPackets k ctx = UpdateSlashRecordOnSend
            (ctx\<lparr>IBCCalls := IBCCalls ctx @ [sendCall k channelID (CCVTimeoutPeriod ctx) p]\<rparr>)))"
  proof (cases "PacketSendingPermitted ctx \<and> ProviderChannel ctx \<noteq> None")
    case True
    then obtain channelID where ch: "ProviderChannel ctx = Some channelID" by auto
    from h True ch assms show ?thesis
      by (auto simp: SendPackets_def GetAllPendingPacketsWithIdx_def SendIBCPacket_def
          sendCall_def split: option.splits)
  next
    case False
    then have "SendPackets k ctx = ctx"
      using SendPackets_not_permitted [of ctx k] SendPackets_unbound [of ctx k] by blast
    then show ?thesis by simp
  qed
  from cases show "PendingPackets (SendPackets k ctx) = PendingPackets ctx"
    by (auto simp: UpdateSlashRecordOnSend_def)
  from cases show "IBCCalls (SendPackets k ctx) = IBCCalls ctx \<or>
      (\<exists>channelID. ProviderChannel ctx = Some channelID \<and>
         IBCCalls (SendPackets k ctx) =
           IBCCalls ctx @ [sendCall k channelID (CCVTimeoutPeriod ctx) p])"
    by (auto simp: UpdateSlashRecordOnSend_def)
next
  fix channelID pre
  assume h: "ProviderChannel ctx = Some channelID \<and> PendingPackets ctx = pre @ p # rest \<and>
      distinct (map Idx (PendingPackets ctx)) \<and> PacketSendingPermitted ctx \<and>
      (\<forall>q \<in> set pre. Type (ConsumerPacket q) \<noteq> SlashPacket) \<and>
      sendsSucceed k channelID (CCVTimeoutPeriod ctx) (IBCCalls ctx) (pre @ [p])"
  then have ok: "sendsSucceed k channelID (CCVTimeoutPeriod ctx) (IBCCalls ctx) pre"
    and sent: "sendResult k (IBCCalls ctx @ map (sendCall k channelID (CCVTimeoutPeriod ctx)) pre)
        channelID (ConsumerPortID k) (ConsumerPacket p) (CCVTimeoutPeriod ctx) = None"
    by (simp_all add: sendsSucceed_snoc)
  have eq: "SendPackets k ctx = UpdateSlashRecordOnSend
      (ctx\<lparr>PendingPackets := p # rest,
           IBCCalls := IBCCalls ctx @
             map (sendCall k channelID (CCVTimeoutPeriod ctx)) (pre @ [p])\<rparr>)"
  proof -
    from h have a1: "ProviderChannel ctx = Some channelID"
      and a2: "PendingPackets ctx = pre @ p # rest"
      and a3: "distinct (map Idx (PendingPackets ctx))"
      and a4: "PacketSendingPermitted ctx"
      and a5: "\<forall>q \<in> set pre. Type (ConsumerPacket q) \<noteq> SlashPacket"
      by blast+
    from assms have a7: "Type (ConsumerPacket p) = SlashPacket \<or>
        sendResult k (IBCCalls ctx @ map (sendCall k channelID (CCVTimeoutPeriod ctx)) pre)
          channelID (ConsumerPortID k) (ConsumerPacket p) (CCVTimeoutPeriod ctx) \<noteq> None"
      by simp
    show ?thesis
      unfolding SendPackets_stops_at [OF a1 a2 a3 a4 a5 ok a7] using sent
      by (simp add: Let_def)
  qed
  show "PendingPackets (SendPackets k ctx) = p # rest"
    by (simp add: eq UpdateSlashRecordOnSend_def)
  show "slashState (SlashRec (SendPackets k ctx)) = WaitingForReply"
    by (simp add: eq UpdateSlashRecordOnSend_def)
  show "IBCCalls (SendPackets k ctx) =
      IBCCalls ctx @ map (sendCall k channelID (CCVTimeoutPeriod ctx)) (pre @ [p])"
    by (simp add: eq UpdateSlashRecordOnSend_def)
  fix k' t
  have "\<not> PacketSendingPermitted ((SendPackets k ctx)\<lparr>BlockTime := t\<rparr>)"
    by (simp add: eq UpdateSlashRecordOnSend_def PacketSendingPermitted_def)
  then show "SendPackets k' ((SendPackets k ctx)\<lparr>BlockTime := t\<rparr>) =
      (SendPackets k ctx)\<lparr>BlockTime := t\<rparr>"
    by (rule SendPackets_not_permitted)
qed

theorem C2_witness:
  "SendPackets testKeeper waitingCtx = waitingCtx \<and>
   PendingPackets (SendPackets testKeeper queueCtx) =
     [slashEntry 0 [1, 2, 3] INFRACTION_DOWNTIME, maturedEntry 1 1] \<and>
   slashState (SlashRec (SendPackets testKeeper queueCtx)) = WaitingForReply \<and>
   IBCCalls (SendPackets testKeeper queueCtx) =
     [CallSendIBCPacket ''channel-0'' ''consumer''
        (ConsumerPacket (slashEntry 0 [1, 2, 3] INFRACTION_DOWNTIME)) 100] \<and>
   SendPackets testKeeper (SendPackets testKeeper queueCtx) = SendPackets testKeeper queueCtx \<and>
   PendingPackets (SendPackets testKeeper mixedCtx) =
     [slashEntry 1 [1, 2, 3] INFRACTION_DOWNTIME, maturedEntry 2 2] \<and>
   IBCCalls (SendPackets testKeeper mixedCtx) =
     [CallSendIBCPacket ''channel-0'' ''consumer'' (ConsumerPacket (maturedEntry 0 1)) 100,
      CallSendIBCPacket ''channel-0'' ''consumer''
        (ConsumerPacket (slashEntry 1 [1, 2, 3] INFRACTION_DOWNTIME)) 100]"
proof -
  let ?s0 = "slashEntry 0 [1, 2, 3] INFRACTION_DOWNTIME"
  let ?s1 = "slashEntry 1 [1, 2, 3] INFRACTION_DOWNTIME"
  have t0: "Type (ConsumerPacket ?s0) = SlashPacket" and t1: "Type (ConsumerPacket ?s1) = SlashPacket"
    by (simp_all add: slashEntry_def)
  have waiting: "SendPackets testKeeper waitingCtx = waitingCtx"
    using C2_head_of_line_blocking [OF t0, of waitingCtx "[maturedEntry 1 1]" testKeeper]
    by (simp add: waitingCtx_def emptyCtx_def)
  have q: "ProviderChannel queueCtx = Some ''channel-0'' \<and>
      PendingPackets queueCtx = [] @ ?s0 # [maturedEntry 1 1] \<and>
      distinct (map Idx (PendingPackets queueCtx)) \<and> PacketSendingPermitted queueCtx \<and>
      (\<forall>q \<in> set []. Type (ConsumerPacket q) \<noteq> SlashPacket) \<and>
      sendsSucceed testKeeper ''channel-0'' (CCVTimeoutPeriod queueCtx) (IBCCalls queueCtx) ([] @ [?s0])"
    by (simp add: queueCtx_def emptyCtx_def testKeeper_def PacketSendingPermitted_def
        slashEntry_def maturedEntry_def)
  have m: "ProviderChannel mixedCtx = Some ''channel-0'' \<and>
      PendingPackets mixedCtx = [maturedEntry 0 1] @ ?s1 # [maturedEntry 2 2] \<and>
      distinct (map Idx (PendingPackets mixedCtx)) \<and> PacketSendingPermitted mixedCtx \<and>
      (\<forall>q \<in> set [maturedEntry 0 1]. Type (ConsumerPacket q) \<noteq> SlashPacket) \<and>
      sendsSucceed testKeeper ''channel-0'' (CCVTimeoutPeriod mixedCtx) (IBCCalls mixedCtx)
        ([maturedEntry 0 1] @ [?s1])"
    by (simp add: mixedCtx_def emptyCtx_def testKeeper_def PacketSendingPermitted_def
        slashEntry_def maturedEntry_def)
  from C2_head_of_line_blocking [OF t0, of queueCtx "[maturedEntry 1 1]" testKeeper] q
  have queue: "PendingPackets (SendPackets testKeeper queueCtx) = ?s0 # [maturedEntry 1 1] \<and>
      slashState (SlashRec (SendPackets testKeeper queueCtx)) = WaitingForReply \<and>
      IBCCalls (SendPackets testKeeper queueCtx) =
        IBCCalls queueCtx @
          map (sendCall testKeeper ''channel-0'' (CCVTimeoutPeriod queueCtx)) ([] @ [?s0]) \<and>
      (\<forall>k' t. SendPackets k' ((SendPackets testKeeper queueCtx)\<lparr>BlockTime := t\<rparr>) =
                (SendPackets testKeeper queueCtx)\<lparr>BlockTime := t\<rparr>)"
    by blast
  then have "SendPackets testKeeper
      ((SendPackets testKeeper queueCtx)\<lparr>BlockTime := BlockTime (SendPackets testKeeper queueCtx)\<rparr>) =
      (SendPackets testKeeper queueCtx)\<lparr>BlockTime := BlockTime (SendPackets testKeeper queueCtx)\<rparr>"
    by blast
  then have again: "SendPackets testKeeper (SendPackets testKeeper queueCtx) =
      SendPackets testKeeper queueCtx"
    by simp
  from C2_head_of_line_blocking [OF t1, of mixedCtx "[maturedEntry 2 2]" testKeeper] m
  have mixed: "PendingPackets (SendPackets testKeeper mixedCtx) = ?s1 # [maturedEntry 2 2] \<and>
      IBCCalls (SendPackets testKeeper mixedCtx) =
        IBCCalls mixedCtx @
          map (sendCall testKeeper ''channel-0'' (CCVTimeoutPeriod mixedCtx))
            ([maturedEntry 0 1] @ [?s1])"
    by blast
  show ?thesis
    using waiting queue again mixed
    by (simp add: queueCtx_def mixedCtx_def emptyCtx_def sendCall_def testKeeper_def)
qed

text \<open>
  C8. Let the queue be \<open>pre @ p # post\<close> with distinct indexes, sending be permitted, the
  entries of \<open>pre\<close> be no slash packets and be accepted by the channel keeper one after
  the other, and the send of \<open>p\<close> fail with any error. Then \<open>SendPackets\<close> makes the
  sends of \<open>pre\<close> and of \<open>p\<close> and no other call, leaves \<open>p # post\<close> in the queue,
  and changes nothing else in the context. It returns no error: it returns only the context.
\<close>

theorem C8_delivery_failure:
  assumes "ProviderChannel ctx = Some channelID"
    and "PendingPackets ctx = pre @ p # post"
    and "distinct (map Idx (PendingPackets ctx))"
    and "PacketSendingPermitted ctx"
    and "\<forall>q \<in> set pre. Type (ConsumerPacket q) \<noteq> SlashPacket"
    and "sendsSucceed k channelID (CCVTimeoutPeriod ctx) (IBCCalls ctx) pre"
    and "sendResult k (IBCCalls ctx @ map (sendCall k channelID (CCVTimeoutPeriod ctx)) pre)
           channelID (ConsumerPortID k) (ConsumerPacket p) (CCVTimeoutPeriod ctx) = Some err"
  shows "SendPackets k ctx =
           ctx\<lparr>PendingPackets := p # post,
               IBCCalls := IBCCalls ctx @
                 map (sendCall k channelID (CCVTimeoutPeriod ctx)) (pre @ [p])\<rparr>"
  using SendPackets_stops_at [OF assms(1-6)] assms(7) by (simp add: Let_def)

theorem C8_witness:
  "SendPackets flakyKeeper maturedCtx =
     maturedCtx\<lparr>PendingPackets := [maturedEntry 2 3, slashEntry 3 [1, 2, 3] INFRACTION_DOWNTIME],
                IBCCalls := [CallSendIBCPacket ''channel-0'' ''consumer'' (ConsumerPacket (maturedEntry 0 1)) 100,
                             CallSendIBCPacket ''channel-0'' ''consumer'' (ConsumerPacket (maturedEntry 1 2)) 100,
                             CallSendIBCPacket ''channel-0'' ''consumer'' (ConsumerPacket (maturedEntry 2 3)) 100]\<rparr> \<and>
   SendPackets flakyKeeper (SendPackets flakyKeeper maturedCtx) =
     (SendPackets flakyKeeper maturedCtx)
       \<lparr>IBCCalls := IBCCalls (SendPackets flakyKeeper maturedCtx) @
          [CallSendIBCPacket ''channel-0'' ''consumer'' (ConsumerPacket (maturedEntry 2 3)) 100]\<rparr>"
proof -
  let ?pre = "[maturedEntry 0 1, maturedEntry 1 2]"
  let ?post = "[slashEntry 3 [1, 2, 3] INFRACTION_DOWNTIME]"
  let ?ctx2 = "maturedCtx\<lparr>PendingPackets := maturedEntry 2 3 # ?post,
      IBCCalls := IBCCalls maturedCtx @
        map (sendCall flakyKeeper ''channel-0'' (CCVTimeoutPeriod maturedCtx)) (?pre @ [maturedEntry 2 3])\<rparr>"
  have first: "SendPackets flakyKeeper maturedCtx = ?ctx2"
    by (rule C8_delivery_failure [where err = ErrClientNotActive])
       (simp_all add: maturedCtx_def emptyCtx_def flakyKeeper_def testKeeper_def
          PacketSendingPermitted_def maturedEntry_def slashEntry_def sendCall_def)
  have second: "SendPackets flakyKeeper ?ctx2 =
      ?ctx2\<lparr>PendingPackets := maturedEntry 2 3 # ?post,
         IBCCalls := IBCCalls ?ctx2 @
           map (sendCall flakyKeeper ''channel-0'' (CCVTimeoutPeriod ?ctx2)) ([] @ [maturedEntry 2 3])\<rparr>"
    by (rule C8_delivery_failure [where err = "ErrSendFailed ''timeout''"])
       (simp_all add: maturedCtx_def emptyCtx_def flakyKeeper_def testKeeper_def
          PacketSendingPermitted_def maturedEntry_def slashEntry_def sendCall_def)
  show ?thesis
    unfolding first
    apply (subst second)
    apply (simp add: maturedCtx_def emptyCtx_def flakyKeeper_def testKeeper_def sendCall_def)
    done
qed

end
